theory Spec2Isabelle
  imports Complex_Main "HOL-Library.Word"
begin

section \<open>The drawing application and its transform pipeline\<close>

text \<open>
  A shallow embedding of \<^verbatim>\<open>fft_drawing_app.py\<close>. The application keeps an off-screen
  8-bit grey-level image that mirrors a Tk canvas, and on request shows the centred
  log-magnitude spectrum of the inverted drawing.

  Conventions of the model:
  \<^item> a two-dimensional array is a list of rows (row-major, as \<^verbatim>\<open>np.asarray\<close> of an image);
  \<^item> a pixel of a mode \<^verbatim>\<open>"L"\<close> image is an 8-bit word;
  \<^item> numpy's \<^verbatim>\<open>float64\<close> and \<^verbatim>\<open>complex128\<close> values are idealised as \<^typ>\<open>real\<close> and
    \<^typ>\<open>complex\<close>: the arithmetic is exact, rounding is not modelled;
  \<^item> the library calls of \<^verbatim>\<open>compute_fft\<close> (\<^verbatim>\<open>np.fft.fft2\<close>, \<^verbatim>\<open>np.fft.fftshift\<close>,
    \<^verbatim>\<open>np.roll\<close>, \<^verbatim>\<open>np.abs\<close>, \<^verbatim>\<open>np.log1p\<close>) follow numpy's documented behaviour,
    including the \<^verbatim>\<open>ValueError\<close> of a transform over zero points;
  \<^item> the line rasteriser of the imaging library (\<^verbatim>\<open>ImageDraw.line\<close>) is a parameter of
    the drawing operations; \<open>ImageDraw_line\<close> models it for segments of length zero and takes
    the rasterisers of proper segments as parameters.
\<close>

subsection \<open>Arrays\<close>

type_synonym 'a ndarray = "'a list list"

type_synonym raster = "8 word ndarray"

text \<open>An array of shape \<open>(H, W)\<close>.\<close>

definition rect :: "nat \<Rightarrow> nat \<Rightarrow> 'a ndarray \<Rightarrow> bool" where
  "rect H W a = (length a = H \<and> list_all (\<lambda>row. length row = W) a)"

text \<open>The length of the last axis; an array without rows has none (shape \<open>(0, 0)\<close>).\<close>

definition ncols :: "'a ndarray \<Rightarrow> nat" where
  "ncols a = (case a of [] \<Rightarrow> 0 | row # _ \<Rightarrow> length row)"

datatype error = ValueError

subsection \<open>The drawing buffer\<close>

datatype event = Event (ev_x: int) (ev_y: int)

type_synonym point = "int \<times> int"

text \<open>
  \<^verbatim>\<open>ImageDraw.line(xy, fill, width)\<close>: the points, the ink, the stroke width and the image
  drawn into; the result is the image after the call.
\<close>

type_synonym rasteriser = "point list \<Rightarrow> 8 word \<Rightarrow> nat \<Rightarrow> raster \<Rightarrow> raster"

text \<open>
  The fields of \<^verbatim>\<open>FourierDrawingApp\<close> that the drawing and the transform read or write:
  \<^verbatim>\<open>self.size\<close>, the items of \<^verbatim>\<open>self.canvas\<close> (each a line with its end points and
  width), \<^verbatim>\<open>self.image\<close> (with \<^verbatim>\<open>self.draw\<close> bound to it) and \<^verbatim>\<open>self.last_pos\<close>.
\<close>

record app =
  size_px :: nat
  canvas :: "(point \<times> point \<times> nat) list"
  image_buf :: raster
  last_pos :: "point option"

text \<open>\<^verbatim>\<open>Image.new("L", (size, size), color=255)\<close>.\<close>

definition Image_new :: "nat \<Rightarrow> nat \<Rightarrow> 8 word \<Rightarrow> raster" where
  "Image_new w h color = replicate h (replicate w color)"

definition create_drawing_buffer :: "app \<Rightarrow> app" where
  "create_drawing_buffer s =
     s\<lparr>image_buf := Image_new (size_px s) (size_px s) 255, last_pos := None\<rparr>"

text \<open>
  \<^verbatim>\<open>__init__(size)\<close>: an empty canvas of the given size and a fresh drawing buffer. The
  size is a natural number: \<^verbatim>\<open>Image.new\<close> refuses a negative one.
\<close>

definition init :: "nat \<Rightarrow> app" where
  "init n = create_drawing_buffer \<lparr>size_px = n, canvas = [], image_buf = [], last_pos = None\<rparr>"

definition start_draw :: "app \<Rightarrow> event \<Rightarrow> app" where
  "start_draw s e = s\<lparr>last_pos := Some (ev_x e, ev_y e)\<rparr>"

definition draw :: "rasteriser \<Rightarrow> app \<Rightarrow> event \<Rightarrow> app" where
  "draw line s e =
     (case last_pos s of
        None \<Rightarrow> s\<lparr>last_pos := Some (ev_x e, ev_y e)\<rparr>
      | Some lp \<Rightarrow>
          (let current_pos = (ev_x e, ev_y e)
           in s\<lparr>canvas := canvas s @ [(lp, current_pos, 4)],
                image_buf := line [lp, current_pos] 0 4 (image_buf s),
                last_pos := Some current_pos\<rparr>))"

definition end_draw :: "app \<Rightarrow> event \<Rightarrow> app" where
  "end_draw s e = s\<lparr>last_pos := None\<rparr>"

definition clear :: "app \<Rightarrow> app" where
  "clear s = create_drawing_buffer (s\<lparr>canvas := []\<rparr>)"

text \<open>The pointer events bound in \<^verbatim>\<open>_bind_drawing\<close>, and the clear button.\<close>

datatype action = ButtonPress event | Motion event | ButtonRelease event | Clear

fun dispatch :: "rasteriser \<Rightarrow> app \<Rightarrow> action \<Rightarrow> app" where
  "dispatch line s (ButtonPress e) = start_draw s e"
| "dispatch line s (Motion e) = draw line s e"
| "dispatch line s (ButtonRelease e) = end_draw s e"
| "dispatch line s Clear = clear s"

definition run :: "rasteriser \<Rightarrow> app \<Rightarrow> action list \<Rightarrow> app" where
  "run line s acts = foldl (dispatch line) s acts"

subsection \<open>The line rasteriser of the imaging library\<close>

text \<open>
  \<^verbatim>\<open>self.draw.line(xy, fill, width)\<close> is Pillow's \<^verbatim>\<open>ImageDraw.line\<close>. The repository does not
  contain it; the model follows Pillow's sources (\<^verbatim>\<open>_draw_lines\<close> in \<^verbatim>\<open>_imaging.c\<close>,
  \<^verbatim>\<open>ImagingDrawLine\<close>, \<^verbatim>\<open>ImagingDrawWideLine\<close> and \<^verbatim>\<open>point8\<close> in \<^verbatim>\<open>Draw.c\<close>) as far as
  segments of length zero go. How a segment between two different points is rasterised
  (Bresenham's line for width at most 1, a filled polygon for a wider stroke) is not modelled:
  the two rasterisers \<open>thin\<close> and \<open>wide\<close> for such segments are parameters.

  \<^verbatim>\<open>point8\<close>: the sample at \<open>(x, y)\<close> takes the ink when the point lies inside the image, and
  nothing happens otherwise.
\<close>

definition draw_point :: "point \<Rightarrow> 8 word \<Rightarrow> raster \<Rightarrow> raster" where
  "draw_point p ink im =
     (let x = fst p; y = snd p
      in if 0 \<le> x \<and> x < int (ncols im) \<and> 0 \<le> y \<and> y < int (length im)
         then im[nat y := (im ! nat y)[nat x := ink]]
         else im)"

text \<open>
  \<^verbatim>\<open>ImagingDrawLine\<close> draws the points of the segment but the last one, so nothing for a
  segment of length zero. \<^verbatim>\<open>ImagingDrawWideLine\<close> draws the single point when
  \<^verbatim>\<open>dx == 0 && dy == 0\<close>.
\<close>

definition ImagingDrawLine ::
  "(point \<Rightarrow> point \<Rightarrow> 8 word \<Rightarrow> raster \<Rightarrow> raster) \<Rightarrow>
   point \<Rightarrow> point \<Rightarrow> 8 word \<Rightarrow> raster \<Rightarrow> raster" where
  "ImagingDrawLine thin p0 p1 ink im = (if p0 = p1 then im else thin p0 p1 ink im)"

definition ImagingDrawWideLine ::
  "(point \<Rightarrow> point \<Rightarrow> 8 word \<Rightarrow> nat \<Rightarrow> raster \<Rightarrow> raster) \<Rightarrow>
   point \<Rightarrow> point \<Rightarrow> 8 word \<Rightarrow> nat \<Rightarrow> raster \<Rightarrow> raster" where
  "ImagingDrawWideLine wide p0 p1 ink width im =
     (if p0 = p1 then draw_point p0 ink im else wide p0 p1 ink width im)"

text \<open>The consecutive pairs of points of \<^verbatim>\<open>xy\<close>.\<close>

fun segments :: "point list \<Rightarrow> (point \<times> point) list" where
  "segments (p # q # ps) = (p, q) # segments (q # ps)"
| "segments ps = []"

text \<open>
  \<^verbatim>\<open>draw_lines(xy, ink, width)\<close>: for \<^verbatim>\<open>width <= 1\<close> every segment with
  \<^verbatim>\<open>ImagingDrawLine\<close> and then, when there was a segment, the last point; otherwise every
  segment with \<^verbatim>\<open>ImagingDrawWideLine\<close>. The stroke width is an argument of the call.
\<close>

definition ImageDraw_line ::
  "(point \<Rightarrow> point \<Rightarrow> 8 word \<Rightarrow> raster \<Rightarrow> raster) \<Rightarrow>
   (point \<Rightarrow> point \<Rightarrow> 8 word \<Rightarrow> nat \<Rightarrow> raster \<Rightarrow> raster) \<Rightarrow> rasteriser" where
  "ImageDraw_line thin wide xy ink width im =
     (if width \<le> 1
      then (let im' = foldl (\<lambda>im (p0, p1). ImagingDrawLine thin p0 p1 ink im) im (segments xy)
            in if segments xy = [] then im' else draw_point (last xy) ink im')
      else foldl (\<lambda>im (p0, p1). ImagingDrawWideLine wide p0 p1 ink width im) im (segments xy))"

subsection \<open>The numpy operations of the transform\<close>

text \<open>\<^verbatim>\<open>np.asarray(image, dtype=float)\<close>: every pixel as a float.\<close>

definition asarray_float :: "raster \<Rightarrow> real ndarray" where
  "asarray_float img = map (map (\<lambda>v. real (unat v))) img"

text \<open>
  The one-dimensional transform \<^verbatim>\<open>np.fft.fft\<close> of \<open>n\<close> points:
  \<open>A\<^sub>k = \<Sum>\<^sub>m a\<^sub>m exp (- 2 \<pi> i m k / n)\<close>.
\<close>

definition dft :: "complex list \<Rightarrow> complex list" where
  "dft xs =
     (let n = length xs
      in map (\<lambda>k. \<Sum>m\<leftarrow>[0..<n]. xs ! m * cis (- (2 * pi * real (m * k) / real n))) [0..<n])"

text \<open>
  \<^verbatim>\<open>np.fft.fft(a, axis=-1)\<close> and \<^verbatim>\<open>np.fft.fft(a, axis=-2)\<close> on a two-dimensional array:
  the transform of every row, and of every column. Fewer than one point along the axis
  raises \<^verbatim>\<open>ValueError\<close>.
\<close>

definition fft_last :: "complex ndarray \<Rightarrow> error + complex ndarray" where
  "fft_last a = (if ncols a < 1 then Inl ValueError else Inr (map dft a))"

definition fft_first :: "complex ndarray \<Rightarrow> error + complex ndarray" where
  "fft_first a =
     (if length a < 1 then Inl ValueError else Inr (transpose (map dft (transpose a))))"

text \<open>\<^verbatim>\<open>np.fft.fft2\<close>: the one-dimensional transform along the last axis, then the first.\<close>

definition fft2 :: "complex ndarray \<Rightarrow> error + complex ndarray" where
  "fft2 a = (case fft_last a of Inl e \<Rightarrow> Inl e | Inr b \<Rightarrow> fft_first b)"

text \<open>
  \<^verbatim>\<open>np.roll\<close> along one axis: the last \<open>offset\<close> elements move to the front. The shift
  is taken modulo the length (modulo 1 on an empty axis).
\<close>

definition roll :: "'a list \<Rightarrow> nat \<Rightarrow> 'a list" where
  "roll a shift =
     (let n = length a; offset = shift mod (if n = 0 then 1 else n)
      in if offset = 0 then a else drop (n - offset) a @ take (n - offset) a)"

text \<open>\<^verbatim>\<open>np.roll(x, shift, axes)\<close> over both axes of a two-dimensional array.\<close>

definition roll2 :: "'a ndarray \<Rightarrow> nat \<times> nat \<Rightarrow> 'a ndarray" where
  "roll2 x shift = roll (map (\<lambda>row. roll row (snd shift)) x) (fst shift)"

text \<open>\<^verbatim>\<open>np.fft.fftshift\<close>: \<^verbatim>\<open>shift = [dim // 2 for dim in x.shape]\<close>, then \<^verbatim>\<open>roll\<close>.\<close>

definition fftshift :: "'a ndarray \<Rightarrow> 'a ndarray" where
  "fftshift x = roll2 x (length x div 2, ncols x div 2)"

definition log1p :: "real \<Rightarrow> real" where
  "log1p x = ln (1 + x)"

subsection \<open>\<^verbatim>\<open>compute_fft\<close>\<close>

text \<open>
  The local variables of \<^verbatim>\<open>compute_fft\<close>, each as a function of the image:
  \<^verbatim>\<open>array\<close> (lines 93 and 94), \<^verbatim>\<open>spectrum\<close>, \<^verbatim>\<open>magnitude\<close> and \<^verbatim>\<open>log_magnitude\<close>.
\<close>

definition cf_array :: "raster \<Rightarrow> real ndarray" where
  "cf_array img =
     (let array = map (map (\<lambda>x. x / 255)) (asarray_float img)
      in map (map (\<lambda>x. 1 - x)) array)"

definition cf_transform :: "raster \<Rightarrow> error + complex ndarray" where
  "cf_transform img = fft2 (map (map complex_of_real) (cf_array img))"

definition cf_spectrum :: "raster \<Rightarrow> error + complex ndarray" where
  "cf_spectrum img = map_sum id fftshift (cf_transform img)"

definition cf_magnitude :: "raster \<Rightarrow> error + real ndarray" where
  "cf_magnitude img = map_sum id (map (map cmod)) (cf_spectrum img)"

definition cf_log_magnitude :: "raster \<Rightarrow> error + real ndarray" where
  "cf_log_magnitude img = map_sum id (map (map log1p)) (cf_magnitude img)"

text \<open>
  \<^verbatim>\<open>compute_fft\<close> hands two arrays to the display: \<^verbatim>\<open>array\<close> and \<^verbatim>\<open>log_magnitude\<close>.
  They are the result of the model; an exception of the transform is the \<open>Inl\<close> branch.
\<close>

definition compute_fft :: "app \<Rightarrow> error + (real ndarray \<times> real ndarray)" where
  "compute_fft s =
     (case cf_log_magnitude (image_buf s) of
        Inl e \<Rightarrow> Inl e
      | Inr log_magnitude \<Rightarrow> Inr (cf_array (image_buf s), log_magnitude))"

subsection \<open>The reference transform\<close>

text \<open>
  The two-dimensional discrete Fourier transform as the specification writes it:
  \<open>F[u,v] = \<Sum>\<^sub>r \<Sum>\<^sub>c a[r,c] * exp (- 2 \<pi> i (u r / H + v c / W))\<close> for an \<open>H \<times> W\<close> array.
\<close>

definition dft2_ref :: "real ndarray \<Rightarrow> nat \<Rightarrow> nat \<Rightarrow> nat \<Rightarrow> nat \<Rightarrow> complex" where
  "dft2_ref a H W u v =
     (\<Sum>r<H. \<Sum>c<W. complex_of_real (a ! r ! c) *
        exp (- (2 * complex_of_real pi * \<i> *
          (of_nat u * of_nat r / of_nat H + of_nat v * of_nat c / of_nat W))))"

text \<open>\<^verbatim>\<open>k * a\<close>: every sample of an array scaled by a constant.\<close>

definition scale :: "real \<Rightarrow> real ndarray \<Rightarrow> real ndarray" where
  "scale k a = map (map (\<lambda>x. k * x)) a"

section \<open>Shapes\<close>

lemma rect_nth: "rect H W a \<Longrightarrow> r < H \<Longrightarrow> length (a ! r) = W"
  by (simp add: rect_def list_all_length)

lemma rect_map_map: "rect H W a \<Longrightarrow> rect H W (map (map f) a)"
  by (simp add: rect_def list_all_length)

lemma rect_ncols: "rect H W a \<Longrightarrow> 0 < H \<Longrightarrow> ncols a = W"
  by (cases a) (simp_all add: rect_def ncols_def)

lemma rect_cf_array: "rect H W img \<Longrightarrow> rect H W (cf_array img)"
  by (simp add: cf_array_def asarray_float_def rect_def list_all_length)

lemma cf_array_nth:
  "rect H W img \<Longrightarrow> r < H \<Longrightarrow> c < W \<Longrightarrow>
     cf_array img ! r ! c = 1 - real (unat (img ! r ! c)) / 255"
  by (simp add: cf_array_def asarray_float_def rect_def list_all_length)

section \<open>Rotation\<close>

lemma length_roll: "length (roll a s) = length a"
  by (auto simp: roll_def Let_def)

lemma roll_nth:
  assumes "i < length a"
  shows "roll a s ! ((i + s) mod length a) = a ! i"
proof -
  let ?n = "length a"
  let ?off = "s mod ?n"
  have n: "0 < ?n" using assms by (cases a) auto
  have off: "?off < ?n" using n by simp
  have mod_eq: "(i + s) mod ?n = (i + ?off) mod ?n" by (simp add: mod_add_right_eq)
  show ?thesis
  proof (cases "?off = 0")
    case True
    then show ?thesis using assms n mod_eq by (simp add: roll_def)
  next
    case False
    have r: "roll a s = drop (?n - ?off) a @ take (?n - ?off) a"
      using False n by (simp add: roll_def Let_def)
    show ?thesis
    proof (cases "i + ?off < ?n")
      case True
      then have "(i + ?off) mod ?n = i + ?off" by simp
      then show ?thesis using True off False assms unfolding r mod_eq
        by (simp add: nth_append)
    next
      case F2: False
      then have ge: "?n \<le> i + ?off" by simp
      have lt: "i + ?off - ?n < ?n" using off assms by linarith
      have "(i + ?off) mod ?n = (i + ?off - ?n) mod ?n"
        using ge by (rule le_mod_geq)
      also have "\<dots> = i + ?off - ?n" using lt by (rule mod_less)
      finally have m: "(i + ?off) mod ?n = i + ?off - ?n" .
      have idx: "i + ?off - ?n < ?off" using assms ge by linarith
      have "(drop (?n - ?off) a @ take (?n - ?off) a) ! (i + ?off - ?n)
              = drop (?n - ?off) a ! (i + ?off - ?n)"
        using idx off by (simp add: nth_append)
      also have "\<dots> = a ! (?n - ?off + (i + ?off - ?n))"
        using off by (simp add: nth_drop)
      also have "?n - ?off + (i + ?off - ?n) = i" using ge off by linarith
      finally show ?thesis unfolding r mod_eq m .
    qed
  qed
qed

lemma set_roll: "set (roll a s) = set a"
proof -
  have "set (drop k a @ take k a) = set a" for k
    by (metis append_take_drop_id set_append sup_commute)
  then show ?thesis by (simp add: roll_def Let_def del: set_append)
qed

lemma rect_roll2: "rect H W x \<Longrightarrow> rect H W (roll2 x sh)"
  by (auto simp: roll2_def rect_def length_roll list_all_iff set_roll)

lemma rect_fftshift: "rect H W x \<Longrightarrow> rect H W (fftshift x)"
  by (simp add: fftshift_def rect_roll2)

lemma roll2_nth:
  assumes "rect H W x" "r < H" "c < W"
  shows "roll2 x (s0, s1) ! ((r + s0) mod H) ! ((c + s1) mod W) = x ! r ! c"
proof -
  let ?y = "map (\<lambda>row. roll row s1) x"
  have len: "length ?y = H" using assms by (simp add: rect_def)
  have "roll ?y s0 ! ((r + s0) mod length ?y) = ?y ! r"
    using assms len by (intro roll_nth) simp
  then have "roll2 x (s0, s1) ! ((r + s0) mod H) = roll (x ! r) s1"
    using assms len by (simp add: roll2_def rect_def)
  moreover have "roll (x ! r) s1 ! ((c + s1) mod length (x ! r)) = x ! r ! c"
    using assms by (intro roll_nth) (simp add: rect_nth)
  ultimately show ?thesis using assms by (simp add: rect_nth)
qed

lemma fftshift_nth:
  assumes "rect H W x" "r < H" "c < W"
  shows "fftshift x ! ((r + H div 2) mod H) ! ((c + W div 2) mod W) = x ! r ! c"
proof -
  have "0 < H" using assms by simp
  then have "ncols x = W" using assms by (simp add: rect_ncols)
  moreover have "length x = H" using assms by (simp add: rect_def)
  ultimately show ?thesis using assms by (simp add: fftshift_def roll2_nth)
qed

section \<open>The transform\<close>

lemma length_dft: "length (dft xs) = length xs"
  by (simp add: dft_def Let_def)

lemma dft_nth: "k < length xs \<Longrightarrow>
  dft xs ! k = (\<Sum>m<length xs. xs ! m * cis (- (2 * pi * real (m * k) / real (length xs))))"
  by (simp add: dft_def Let_def interv_sum_list_conv_sum_set_nat atLeast0LessThan)

lemma transpose_rect:
  assumes "rect H W a" "0 < H"
  shows "transpose a = map (\<lambda>j. map (\<lambda>i. a ! i ! j) [0..<H]) [0..<W]"
proof -
  have "transpose a = map (\<lambda>j. map (\<lambda>i. a ! i ! j) [0..<length a]) [0..<W]"
  proof (rule transpose_rectangle)
    show "a = [] \<Longrightarrow> W = 0" using assms by (simp add: rect_def)
    show "\<And>i. i < length a \<Longrightarrow> length (a ! i) = W"
      using assms by (simp add: rect_def list_all_length)
  qed
  then show ?thesis using assms by (simp add: rect_def)
qed

lemma rect_transpose:
  assumes "rect H W a" "0 < H"
  shows "rect W H (transpose a)"
  unfolding transpose_rect[OF assms] by (simp add: rect_def list_all_length)

lemma rect_map_dft: "rect H W a \<Longrightarrow> rect H W (map dft a)"
  by (simp add: rect_def list_all_length length_dft)

lemma fft_first_rect:
  assumes "rect H W b" "0 < H" "0 < W"
  shows "fft_first b = Inr (map (\<lambda>u. map (\<lambda>v. dft (map (\<lambda>r. b ! r ! v) [0..<H]) ! u) [0..<W]) [0..<H])"
proof -
  have t: "transpose b = map (\<lambda>j. map (\<lambda>i. b ! i ! j) [0..<H]) [0..<W]"
    using assms by (simp add: transpose_rect)
  have r: "rect W H (map dft (transpose b))"
    using assms by (simp add: rect_map_dft rect_transpose)
  have "transpose (map dft (transpose b)) =
      map (\<lambda>u. map (\<lambda>v. map dft (transpose b) ! v ! u) [0..<W]) [0..<H]"
    using r assms by (simp add: transpose_rect)
  also have "\<dots> = map (\<lambda>u. map (\<lambda>v. dft (map (\<lambda>r. b ! r ! v) [0..<H]) ! u) [0..<W]) [0..<H]"
    by (simp add: t)
  finally show ?thesis using assms by (simp add: fft_first_def rect_def)
qed

lemma fft2_rect:
  assumes "rect H W a" "0 < H" "0 < W"
  shows "fft2 a = Inr (map (\<lambda>u. map (\<lambda>v. dft (map (\<lambda>r. dft (a ! r) ! v) [0..<H]) ! u) [0..<W]) [0..<H])"
proof -
  have l: "fft_last a = Inr (map dft a)"
    using assms by (simp add: fft_last_def rect_ncols)
  have "fft_first (map dft a) =
     Inr (map (\<lambda>u. map (\<lambda>v. dft (map (\<lambda>r. map dft a ! r ! v) [0..<H]) ! u) [0..<W]) [0..<H])"
    using assms by (intro fft_first_rect rect_map_dft)
  also have "map (\<lambda>u. map (\<lambda>v. dft (map (\<lambda>r. map dft a ! r ! v) [0..<H]) ! u) [0..<W]) [0..<H]
     = map (\<lambda>u. map (\<lambda>v. dft (map (\<lambda>r. dft (a ! r) ! v) [0..<H]) ! u) [0..<W]) [0..<H]"
  proof -
    have h: "map (\<lambda>r. map dft a ! r ! v) [0..<H] = map (\<lambda>r. dft (a ! r) ! v) [0..<H]" for v
      using assms by (simp add: rect_def)
    show ?thesis by (simp only: h)
  qed
  finally show ?thesis by (simp add: fft2_def l)
qed

lemma twiddle:
  "cis (- (2 * pi * real (c * v) / real W)) * cis (- (2 * pi * real (r * u) / real H))
   = exp (- (2 * complex_of_real pi * \<i> *
          (of_nat u * of_nat r / of_nat H + of_nat v * of_nat c / of_nat W)))"
proof -
  have "cis (- (2 * pi * real (c * v) / real W)) * cis (- (2 * pi * real (r * u) / real H))
     = cis (- (2 * pi * (real u * real r / real H + real v * real c / real W)))"
    by (simp add: cis_mult algebra_simps add_divide_distrib)
  also have "\<dots> = exp (\<i> * complex_of_real (- (2 * pi * (real u * real r / real H + real v * real c / real W))))"
    by (simp only: cis_conv_exp)
  also have "\<i> * complex_of_real (- (2 * pi * (real u * real r / real H + real v * real c / real W)))
      = - (2 * complex_of_real pi * \<i> *
          (of_nat u * of_nat r / of_nat H + of_nat v * of_nat c / of_nat W))"
    by (simp add: algebra_simps)
  finally show ?thesis .
qed

lemma fft2_nth:
  assumes "rect H W a" "0 < H" "0 < W" "u < H" "v < W"
  shows "dft (map (\<lambda>r. dft (map complex_of_real (a ! r)) ! v) [0..<H]) ! u = dft2_ref a H W u v"
proof -
  have "dft (map (\<lambda>r. dft (map complex_of_real (a ! r)) ! v) [0..<H]) ! u
     = (\<Sum>r<H. dft (map complex_of_real (a ! r)) ! v * cis (- (2 * pi * real (r * u) / real H)))"
    using assms by (simp add: dft_nth)
  also have "\<dots> = (\<Sum>r<H. (\<Sum>c<W. complex_of_real (a ! r ! c) * cis (- (2 * pi * real (c * v) / real W)))
        * cis (- (2 * pi * real (r * u) / real H)))"
    using assms by (intro sum.cong refl) (simp add: dft_nth rect_nth)
  also have "\<dots> = (\<Sum>r<H. \<Sum>c<W. complex_of_real (a ! r ! c) *
      (cis (- (2 * pi * real (c * v) / real W)) * cis (- (2 * pi * real (r * u) / real H))))"
    by (simp add: sum_distrib_right mult.assoc)
  also have "\<dots> = dft2_ref a H W u v"
    unfolding dft2_ref_def twiddle ..
  finally show ?thesis .
qed

lemma fft2_Inr:
  assumes "rect H W a" "0 < H" "0 < W"
  shows "\<exists>F. fft2 a = Inr F \<and> rect H W F"
  using fft2_rect[OF assms] by (simp add: rect_def list_all_length)

lemma cf_transform_Inr:
  assumes "rect H W img" "0 < H" "0 < W"
  shows "\<exists>F. cf_transform img = Inr F \<and> rect H W F"
  unfolding cf_transform_def
  using assms by (intro fft2_Inr rect_map_map rect_cf_array)

lemma unat_le_255: "unat (v :: 8 word) \<le> 255"
  using unsigned_less[of v, where 'a = nat] by simp

lemma fft2_real_nth:
  assumes "rect H W a" "0 < H" "0 < W"
  shows "\<exists>F. fft2 (map (map complex_of_real) a) = Inr F \<and> rect H W F \<and>
           (\<forall>u<H. \<forall>v<W. F ! u ! v = dft2_ref a H W u v)"
proof -
  let ?a = "map (map complex_of_real) a"
  let ?F = "map (\<lambda>u. map (\<lambda>v. dft (map (\<lambda>r. dft (?a ! r) ! v) [0..<H]) ! u) [0..<W]) [0..<H]"
  have ra: "rect H W ?a" using assms by (simp add: rect_map_map)
  have F: "fft2 ?a = Inr ?F" by (rule fft2_rect[OF ra assms(2,3)])
  have len: "length a = H" using assms by (simp add: rect_def)
  have "?F ! u ! v = dft2_ref a H W u v" if "u < H" "v < W" for u v
  proof -
    have m: "map (\<lambda>r. dft (?a ! r) ! v) [0..<H] = map (\<lambda>r. dft (map complex_of_real (a ! r)) ! v) [0..<H]"
      using len by simp
    have "?F ! u ! v = dft (map (\<lambda>r. dft (?a ! r) ! v) [0..<H]) ! u"
      using that by simp
    also have "\<dots> = dft (map (\<lambda>r. dft (map complex_of_real (a ! r)) ! v) [0..<H]) ! u"
      by (simp only: m)
    also have "\<dots> = dft2_ref a H W u v"
      by (rule fft2_nth[OF assms that])
    finally show ?thesis .
  qed
  moreover have "rect H W ?F" by (simp add: rect_def list_all_length)
  ultimately show ?thesis using F by blast
qed

lemma cf_transform_dft2_ref:
  assumes "rect H W img" "0 < H" "0 < W"
  shows "\<exists>F. cf_transform img = Inr F \<and> rect H W F \<and>
           (\<forall>u<H. \<forall>v<W. F ! u ! v = dft2_ref (cf_array img) H W u v)"
  unfolding cf_transform_def
  using assms by (intro fft2_real_nth rect_cf_array)

lemma exp_neg_pi_i: "exp (- (complex_of_real pi * \<i>)) = - 1"
  by (simp add: exp_minus exp_pi_i)

lemma cf_spectrum_Inr:
  "cf_transform img = Inr F \<Longrightarrow> cf_spectrum img = Inr (fftshift F)"
  by (simp add: cf_spectrum_def)

lemma dft2_ref_dc: "dft2_ref a H W 0 0 = complex_of_real (\<Sum>r<H. \<Sum>c<W. a ! r ! c)"
  by (simp add: dft2_ref_def)

lemma sum_list_rect:
  assumes "rect H W (a :: real ndarray)"
  shows "sum_list (map sum_list a) = (\<Sum>r<H. \<Sum>c<W. a ! r ! c)"
proof -
  have len: "length a = H" using assms by (simp add: rect_def)
  have "sum_list (map sum_list a) = (\<Sum>r<H. sum_list (a ! r))"
    using len by (simp add: sum_list_sum_nth atLeast0LessThan)
  also have "\<dots> = (\<Sum>r<H. \<Sum>c<W. a ! r ! c)"
  proof (rule sum.cong[OF refl])
    fix r assume "r \<in> {..<H}"
    then have "length (a ! r) = W" using assms by (simp add: rect_nth)
    then show "sum_list (a ! r) = (\<Sum>c<W. a ! r ! c)"
      by (simp add: sum_list_sum_nth atLeast0LessThan)
  qed
  finally show ?thesis .
qed

lemma scale_nth:
  "rect H W a \<Longrightarrow> r < H \<Longrightarrow> c < W \<Longrightarrow> scale k a ! r ! c = k * a ! r ! c"
  by (simp add: scale_def rect_def list_all_length)

lemma rect_scale: "rect H W a \<Longrightarrow> rect H W (scale k a)"
  unfolding scale_def by (rule rect_map_map)

lemma dft2_ref_scale:
  assumes "rect H W a"
  shows "dft2_ref (scale k a) H W u v = complex_of_real k * dft2_ref a H W u v"
proof -
  have "dft2_ref (scale k a) H W u v =
      (\<Sum>r<H. \<Sum>c<W. complex_of_real k * (complex_of_real (a ! r ! c) *
        exp (- (2 * complex_of_real pi * \<i> *
          (of_nat u * of_nat r / of_nat H + of_nat v * of_nat c / of_nat W)))))"
    unfolding dft2_ref_def
    using assms by (intro sum.cong refl) (simp add: scale_nth mult.assoc)
  also have "\<dots> = complex_of_real k * dft2_ref a H W u v"
    unfolding dft2_ref_def by (simp add: sum_distrib_left)
  finally show ?thesis .
qed

lemma fft2_single: "fft2 [[z]] = Inr [[z]]"
  by (simp add: fft2_def fft_last_def fft_first_def ncols_def dft_def)

section \<open>The drawing buffer under pointer events\<close>

lemma size_px_dispatch: "size_px (dispatch line s a) = size_px s"
  by (cases a)
     (simp_all add: start_draw_def draw_def end_draw_def clear_def create_drawing_buffer_def
        Let_def split: option.splits)

lemma size_px_run: "size_px (run line s acts) = size_px s"
  unfolding run_def by (induction acts arbitrary: s) (simp_all add: size_px_dispatch)

lemma ImageDraw_line_origin:
  "ImageDraw_line thin wide [(0, 0), (0, 0)] ink w im = draw_point (0, 0) ink im"
  by (simp add: ImageDraw_line_def ImagingDrawLine_def ImagingDrawWideLine_def)

lemma draw_point_origin:
  assumes "rect H W im" "0 < H" "0 < W"
  shows "draw_point (0, 0) ink im = im[0 := (im ! 0)[0 := ink]]"
proof -
  have "ncols im = W" using assms(1,2) by (rule rect_ncols)
  moreover have "length im = H" using assms(1) by (simp add: rect_def)
  ultimately show ?thesis using assms(2,3) by (simp add: draw_point_def)
qed

lemma draw_point_origin_nth:
  assumes "rect H W im" "r < H" "c < W"
  shows "draw_point (0, 0) ink im ! r ! c = (if r = 0 \<and> c = 0 then ink else im ! r ! c)"
proof -
  have H: "0 < H" and W: "0 < W" using assms by simp_all
  have len: "length im = H" using assms by (simp add: rect_def)
  have l0: "length (im ! 0) = W" using assms(1) H by (rule rect_nth)
  show ?thesis
    unfolding draw_point_origin[OF assms(1) H W]
    using assms len l0 by (cases r) (simp_all add: nth_list_update)
qed

lemma rect_draw_point_origin:
  assumes "rect H W im"
  shows "rect H W (draw_point (0, 0) ink im)"
proof (cases "0 < H \<and> 0 < W")
  case True
  then have H: "0 < H" and W: "0 < W" by simp_all
  show ?thesis
    using assms unfolding draw_point_origin[OF assms H W]
    by (auto simp: rect_def list_all_length nth_list_update)
next
  case False
  then have "draw_point (0, 0) ink im = im"
    using assms by (cases im) (auto simp: draw_point_def ncols_def rect_def)
  then show ?thesis using assms by simp
qed

section \<open>Properties of the pipeline\<close>

text \<open>
  C1, for grids with at least one sample: when the image of the application is an \<open>N \<times> N\<close>
  raster and \<open>1 \<le> N\<close>, \<^verbatim>\<open>compute_fft\<close> hands two arrays to the display, the normalised
  drawing and the log-magnitude spectrum, and both have shape \<open>N \<times> N\<close>.
\<close>

theorem compute_fft_shape:
  assumes "rect N N (image_buf s)" "0 < N"
  shows "\<exists>array log_magnitude. compute_fft s = Inr (array, log_magnitude) \<and>
           rect N N array \<and> rect N N log_magnitude"
proof -
  obtain F where F: "cf_transform (image_buf s) = Inr F" "rect N N F"
    using cf_transform_Inr[OF assms(1) assms(2) assms(2)] by blast
  have "cf_log_magnitude (image_buf s) = Inr (map (map log1p) (map (map cmod) (fftshift F)))"
    by (simp add: cf_log_magnitude_def cf_magnitude_def cf_spectrum_def F)
  moreover have "rect N N (map (map log1p) (map (map cmod) (fftshift F)))"
    using F by (intro rect_map_map rect_fftshift)
  ultimately show ?thesis
    using assms by (simp add: compute_fft_def rect_cf_array)
qed

theorem compute_fft_shape_witness:
  "\<exists>array log_magnitude.
     compute_fft \<lparr>size_px = 2, canvas = [], image_buf = [[255, 0], [0, 255]], last_pos = None\<rparr>
       = Inr (array, log_magnitude) \<and>
     rect 2 2 array \<and> rect 2 2 log_magnitude"
  using compute_fft_shape[of 2 "\<lparr>size_px = 2, canvas = [], image_buf = [[255, 0], [0, 255]], last_pos = None\<rparr>"]
  by (simp add: rect_def)

text \<open>
  An application of size 0 has a raster of shape \<open>0 \<times> 0\<close>. The transform over zero points
  raises \<^verbatim>\<open>ValueError\<close>, so \<^verbatim>\<open>compute_fft\<close> produces no array there.
\<close>

theorem compute_fft_empty_raster:
  "rect 0 0 (image_buf (init 0)) \<and> compute_fft (init 0) = Inl ValueError"
  by (simp add: init_def create_drawing_buffer_def Image_new_def rect_def compute_fft_def
      cf_log_magnitude_def cf_magnitude_def cf_spectrum_def cf_transform_def cf_array_def
      asarray_float_def fft2_def fft_last_def ncols_def)

text \<open>
  C2: the sample of \<^verbatim>\<open>array\<close> at \<open>(r, c)\<close> is \<open>1 - v / 255\<close> for the raster sample \<open>v\<close> at
  \<open>(r, c)\<close>: the sample is divided by 255 and then inverted. Ink (intensity 0) becomes 1 and
  the blank background (intensity 255) becomes 0.
\<close>

theorem cf_array_sample:
  assumes "rect H W img" "r < H" "c < W"
  shows "cf_array img ! r ! c = 1 - real (unat (img ! r ! c)) / 255 \<and>
         (img ! r ! c = 0 \<longrightarrow> cf_array img ! r ! c = 1) \<and>
         (img ! r ! c = 255 \<longrightarrow> cf_array img ! r ! c = 0)"
  using assms by (simp add: cf_array_nth)

theorem cf_array_sample_witness:
  "cf_array [[0, 255], [128, 7]] ! 1 ! 0 = 127 / 255 \<and>
   cf_array [[0, 255], [128, 7]] ! 0 ! 0 = 1 \<and>
   cf_array [[0, 255], [128, 7]] ! 0 ! 1 = 0"
  using cf_array_sample[of 2 2 "[[0, 255], [128, 7]]" 1 0]
    cf_array_sample[of 2 2 "[[0, 255], [128, 7]]" 0 0]
    cf_array_sample[of 2 2 "[[0, 255], [128, 7]]" 0 1]
  by (simp add: rect_def)

text \<open>
  C3: for an \<open>H \<times> W\<close> raster and every index \<open>(u, v)\<close> of it, the transform that
  \<^verbatim>\<open>compute_fft\<close> takes with \<^verbatim>\<open>np.fft.fft2\<close> (the one-dimensional transform of every row,
  then of every column) exists, has shape \<open>H \<times> W\<close>, and its entry at \<open>(u, v)\<close> is the
  reference two-dimensional transform of the normalised array,
  \<open>\<Sum>\<^sub>r \<Sum>\<^sub>c a[r,c] * exp (- 2 \<pi> i (u r / H + v c / W))\<close>.
\<close>

theorem cf_transform_is_dft2:
  assumes "rect H W img" "u < H" "v < W"
  shows "\<exists>F. cf_transform img = Inr F \<and> rect H W F \<and>
           F ! u ! v = dft2_ref (cf_array img) H W u v"
proof -
  have "0 < H" and "0 < W" using assms by simp_all
  then show ?thesis using cf_transform_dft2_ref[OF assms(1)] assms(2,3) by blast
qed

theorem cf_transform_is_dft2_witness:
  "\<exists>F. cf_transform [[255, 0], [0, 255]] = Inr F \<and> rect 2 2 F \<and> F ! 1 ! 1 = - 2"
proof -
  have "rect 2 2 [[255, 0], [0, 255 :: 8 word]]" by (simp add: rect_def)
  from cf_transform_is_dft2[OF this, of 1 1] obtain F where
    F: "cf_transform [[255, 0], [0, 255]] = Inr F" "rect 2 2 F"
       "F ! 1 ! 1 = dft2_ref (cf_array [[255, 0], [0, 255]]) 2 2 1 1"
    by auto
  have a: "cf_array [[255, 0], [0, 255]] = [[0, 1], [1, 0]]"
    by (simp add: cf_array_def asarray_float_def)
  have "dft2_ref [[0, 1], [1, 0]] 2 2 1 1 = - 2"
    by (simp add: dft2_ref_def lessThan_Suc numeral_2_eq_2 exp_neg_pi_i)
  then have "F ! 1 ! 1 = - 2" using F(3) by (simp only: a)
  then show ?thesis using F(1,2) by blast
qed

text \<open>
  C4: the centring shift moves the element at \<open>(r, c)\<close> of the unshifted \<open>H \<times> W\<close> transform to
  index \<open>((r + H div 2) mod H, (c + W div 2) mod W)\<close> of the spectrum, with integer division; in
  particular the zero-frequency element \<open>(0, 0)\<close> lands at \<open>(H div 2, W div 2)\<close>, which for an
  odd dimension is the floor of half the size.
\<close>

theorem cf_spectrum_centred:
  assumes "rect H W img" "r < H" "c < W"
  shows "\<exists>F S. cf_transform img = Inr F \<and> cf_spectrum img = Inr S \<and>
           S ! ((r + H div 2) mod H) ! ((c + W div 2) mod W) = F ! r ! c \<and>
           S ! (H div 2) ! (W div 2) = F ! 0 ! 0"
proof -
  have H: "0 < H" and W: "0 < W" using assms by simp_all
  obtain F where F: "cf_transform img = Inr F" "rect H W F"
    using cf_transform_Inr[OF assms(1) H W] by blast
  have 1: "fftshift F ! ((r + H div 2) mod H) ! ((c + W div 2) mod W) = F ! r ! c"
    using F(2) assms(2,3) by (rule fftshift_nth)
  have "fftshift F ! ((0 + H div 2) mod H) ! ((0 + W div 2) mod W) = F ! 0 ! 0"
    using F(2) H W by (rule fftshift_nth)
  then have 2: "fftshift F ! (H div 2) ! (W div 2) = F ! 0 ! 0"
    using H W by simp
  show ?thesis using F(1) cf_spectrum_Inr[OF F(1)] 1 2 by simp
qed

theorem cf_spectrum_centred_witness:
  "\<exists>F S. cf_transform [[255, 0, 0], [0, 255, 0], [0, 0, 255]] = Inr F \<and>
         cf_spectrum [[255, 0, 0], [0, 255, 0], [0, 0, 255]] = Inr S \<and>
         S ! 0 ! 2 = F ! 2 ! 1 \<and> S ! 1 ! 1 = F ! 0 ! 0"
proof -
  have "rect 3 3 [[255, 0, 0], [0, 255, 0], [0, 0, 255 :: 8 word]]" by (simp add: rect_def)
  from cf_spectrum_centred[OF this, of 2 1] obtain F S where
    FS: "cf_transform [[255, 0, 0], [0, 255, 0], [0, 0, 255]] = Inr F"
        "cf_spectrum [[255, 0, 0], [0, 255, 0], [0, 0, 255]] = Inr S"
        "S ! ((2 + 3 div 2) mod 3) ! ((1 + 3 div 2) mod 3) = F ! 2 ! 1"
        "S ! (3 div 2) ! (3 div 2) = F ! 0 ! 0"
    by auto
  have e: "(2 + 3 div 2) mod 3 = (0::nat)" "(1 + 3 div 2) mod 3 = (2::nat)" "3 div 2 = (1::nat)"
    by simp_all
  have "S ! 0 ! 2 = F ! 2 ! 1" using FS(3) by (simp only: e(1,2))
  moreover have "S ! 1 ! 1 = F ! 0 ! 0" using FS(4) by (simp only: e(3))
  ultimately show ?thesis using FS(1,2) by blast
qed

text \<open>
  C5: every entry of \<^verbatim>\<open>log_magnitude\<close> is \<^verbatim>\<open>log1p\<close> of the magnitude of the entry of the
  shifted spectrum at the same index, that is \<open>ln (1 + |S[r,c]|)\<close>, and it is a non-negative
  real number.
\<close>

theorem cf_log_magnitude_entry:
  assumes "rect H W img" "r < H" "c < W"
  shows "\<exists>S L. cf_spectrum img = Inr S \<and> cf_log_magnitude img = Inr L \<and>
           L ! r ! c = log1p (cmod (S ! r ! c)) \<and>
           L ! r ! c = ln (1 + cmod (S ! r ! c)) \<and> 0 \<le> L ! r ! c"
proof -
  have H: "0 < H" and W: "0 < W" using assms by simp_all
  obtain F where F: "cf_transform img = Inr F" "rect H W F"
    using cf_transform_Inr[OF assms(1) H W] by blast
  let ?S = "fftshift F"
  let ?L = "map (map log1p) (map (map cmod) ?S)"
  have S: "cf_spectrum img = Inr ?S" using F(1) by (rule cf_spectrum_Inr)
  have L: "cf_log_magnitude img = Inr ?L"
    by (simp add: cf_log_magnitude_def cf_magnitude_def S)
  have rS: "rect H W ?S" using F(2) by (rule rect_fftshift)
  have e: "?L ! r ! c = log1p (cmod (?S ! r ! c))"
    using rS assms(2,3) by (simp add: rect_def list_all_length)
  have "0 \<le> ln (1 + cmod (?S ! r ! c))" by simp
  then show ?thesis using S L e by (simp add: log1p_def)
qed

theorem cf_log_magnitude_entry_witness:
  "\<exists>S L. cf_spectrum [[255, 0], [0, 255]] = Inr S \<and> cf_log_magnitude [[255, 0], [0, 255]] = Inr L \<and>
         L ! 1 ! 0 = ln (1 + cmod (S ! 1 ! 0)) \<and> 0 \<le> L ! 1 ! 0"
proof -
  have "rect 2 2 [[255, 0], [0, 255 :: 8 word]]" by (simp add: rect_def)
  from cf_log_magnitude_entry[OF this, of 1 0] show ?thesis by auto
qed

text \<open>
  C6: every value of the normalised array lies in \<open>[0, 1]\<close> (a sample of the raster is an
  8-bit value, so it lies in \<open>0..255\<close>), and the normalised array of a raster whose samples
  are all 255 is zero everywhere.
\<close>

theorem cf_array_unit_interval:
  "(\<forall>row \<in> set (cf_array img). \<forall>x \<in> set row. 0 \<le> x \<and> x \<le> 1) \<and>
   (list_all (list_all (\<lambda>v. v = 255)) img \<longrightarrow>
      list_all (list_all (\<lambda>x. x = 0)) (cf_array img))"
proof -
  have b: "0 \<le> 1 - real n / 255 \<and> 1 - real n / 255 \<le> 1" if "n \<le> 255" for n :: nat
    using that by simp
  have "0 \<le> 1 - real (unat v) / 255 \<and> 1 - real (unat v) / 255 \<le> 1" for v :: "8 word"
    by (rule b[OF unat_le_255])
  then have "\<forall>row \<in> set (cf_array img). \<forall>x \<in> set row. 0 \<le> x \<and> x \<le> 1"
    by (auto simp: cf_array_def asarray_float_def)
  moreover have "list_all (list_all (\<lambda>v. v = 255)) img \<longrightarrow>
      list_all (list_all (\<lambda>x. x = 0)) (cf_array img)"
    by (fastforce simp: cf_array_def asarray_float_def list_all_iff)
  ultimately show ?thesis by blast
qed

theorem cf_array_unit_interval_witness:
  "0 \<le> cf_array [[0, 255], [128, 7]] ! 1 ! 1 \<and> cf_array [[0, 255], [128, 7]] ! 1 ! 1 \<le> 1 \<and>
   cf_array [[255, 255], [255, 255]] = [[0, 0], [0, 0]]"
  using cf_array_unit_interval[of "[[0, 255], [128, 7]]"]
    cf_array_unit_interval[of "[[255, 255], [255, 255]]"]
  by (simp add: cf_array_def asarray_float_def)

text \<open>
  C7: for an \<open>N \<times> N\<close> raster, the zero-frequency coefficient \<open>F[0,0]\<close> of the transform of the
  normalised array is the sum of all normalised samples, and after the centring shift it
  stands at index \<open>(N div 2, N div 2)\<close> of the spectrum.
\<close>

theorem dc_term_centre:
  assumes "rect N N img" "0 < N"
  shows "\<exists>F S. cf_transform img = Inr F \<and> cf_spectrum img = Inr S \<and>
           F ! 0 ! 0 = complex_of_real (sum_list (map sum_list (cf_array img))) \<and>
           S ! (N div 2) ! (N div 2) = F ! 0 ! 0"
proof -
  obtain F where F: "cf_transform img = Inr F" "rect N N F"
      "\<forall>u<N. \<forall>v<N. F ! u ! v = dft2_ref (cf_array img) N N u v"
    using cf_transform_dft2_ref[OF assms(1) assms(2) assms(2)] by blast
  have "F ! 0 ! 0 = dft2_ref (cf_array img) N N 0 0" using F(3) assms(2) by blast
  also have "\<dots> = complex_of_real (\<Sum>r<N. \<Sum>c<N. cf_array img ! r ! c)"
    by (rule dft2_ref_dc)
  also have "(\<Sum>r<N. \<Sum>c<N. cf_array img ! r ! c) = sum_list (map sum_list (cf_array img))"
    using rect_cf_array[OF assms(1)] by (simp add: sum_list_rect)
  finally have dc: "F ! 0 ! 0 = complex_of_real (sum_list (map sum_list (cf_array img)))" .
  have "fftshift F ! ((0 + N div 2) mod N) ! ((0 + N div 2) mod N) = F ! 0 ! 0"
    using F(2) assms(2) assms(2) by (rule fftshift_nth)
  then have "fftshift F ! (N div 2) ! (N div 2) = F ! 0 ! 0" using assms(2) by simp
  then show ?thesis using F(1) cf_spectrum_Inr[OF F(1)] dc by simp
qed

theorem dc_term_centre_witness:
  "\<exists>F S. cf_transform [[0, 255, 255], [255, 0, 255], [255, 255, 255]] = Inr F \<and>
         cf_spectrum [[0, 255, 255], [255, 0, 255], [255, 255, 255]] = Inr S \<and>
         F ! 0 ! 0 = 2 \<and> S ! 1 ! 1 = 2"
proof -
  have "rect 3 3 [[0, 255, 255], [255, 0, 255], [255, 255, 255 :: 8 word]]"
    by (simp add: rect_def)
  from dc_term_centre[OF this] obtain F S where
    FS: "cf_transform [[0, 255, 255], [255, 0, 255], [255, 255, 255]] = Inr F"
        "cf_spectrum [[0, 255, 255], [255, 0, 255], [255, 255, 255]] = Inr S"
        "F ! 0 ! 0 = complex_of_real (sum_list (map sum_list
            (cf_array [[0, 255, 255], [255, 0, 255], [255, 255, 255]])))"
        "S ! (3 div 2) ! (3 div 2) = F ! 0 ! 0"
    by auto
  have s: "sum_list (map sum_list (cf_array [[0, 255, 255], [255, 0, 255], [255, 255, 255]])) = 2"
    by (simp add: cf_array_def asarray_float_def)
  have d: "3 div 2 = (1::nat)" by simp
  have "F ! 0 ! 0 = 2" using FS(3) by (simp only: s of_real_numeral)
  moreover have "S ! 1 ! 1 = 2" using FS(4) \<open>F ! 0 ! 0 = 2\<close> by (simp only: d)
  ultimately show ?thesis using FS(1,2) by blast
qed

text \<open>
  C8, with the absolute value of the constant: scaling every sample of an array by \<open>k\<close>
  scales the magnitude of every coefficient of its transform by \<open>|k|\<close>. For \<open>0 \<le> k\<close> this is
  the factor \<open>k\<close> itself.
\<close>

theorem fft2_scale_magnitude:
  assumes "rect H W a" "u < H" "v < W"
  shows "\<exists>F G. fft2 (map (map complex_of_real) a) = Inr F \<and>
           fft2 (map (map complex_of_real) (scale k a)) = Inr G \<and>
           cmod (G ! u ! v) = \<bar>k\<bar> * cmod (F ! u ! v)"
proof -
  have H: "0 < H" and W: "0 < W" using assms by simp_all
  obtain F where F: "fft2 (map (map complex_of_real) a) = Inr F"
      "\<forall>u<H. \<forall>v<W. F ! u ! v = dft2_ref a H W u v"
    using fft2_real_nth[OF assms(1) H W] by blast
  obtain G where G: "fft2 (map (map complex_of_real) (scale k a)) = Inr G"
      "\<forall>u<H. \<forall>v<W. G ! u ! v = dft2_ref (scale k a) H W u v"
    using fft2_real_nth[OF rect_scale[OF assms(1)] H W] by blast
  have "G ! u ! v = complex_of_real k * F ! u ! v"
    using F(2) G(2) assms by (simp add: dft2_ref_scale)
  then have "cmod (G ! u ! v) = \<bar>k\<bar> * cmod (F ! u ! v)"
    by (simp add: norm_mult)
  then show ?thesis using F(1) G(1) by blast
qed

theorem fft2_scale_magnitude_witness:
  "\<exists>F G. fft2 (map (map complex_of_real) [[1, 0], [0, 0]]) = Inr F \<and>
         fft2 (map (map complex_of_real) (scale (- 3) [[1, 0], [0, 0]])) = Inr G \<and>
         cmod (G ! 1 ! 0) = 3 * cmod (F ! 1 ! 0)"
proof -
  have "rect 2 2 [[1, 0], [0, 0 :: real]]" by (simp add: rect_def)
  from fft2_scale_magnitude[OF this, of 1 0 "- 3"] show ?thesis by auto
qed

text \<open>
  For a negative constant the magnitudes are not scaled by \<open>k\<close>: on the one-sample array
  \<open>[[1]]\<close> with \<open>k = - 1\<close> the transforms are \<open>[[1]]\<close> and \<open>[[- 1]]\<close>, both of magnitude 1,
  and \<open>1 \<noteq> - 1 * 1\<close>.
\<close>

theorem fft2_scale_negative:
  "fft2 (map (map complex_of_real) [[1]]) = Inr [[1]] \<and>
   fft2 (map (map complex_of_real) (scale (- 1) [[1]])) = Inr [[- 1]] \<and>
   cmod ([[- 1 :: complex]] ! 0 ! 0) \<noteq> (- 1) * cmod ([[1 :: complex]] ! 0 ! 0)"
  by (simp add: fft2_single scale_def)

text \<open>
  C9: after any sequence of pointer events and clears, with any line rasteriser,
  \<^verbatim>\<open>clear\<close> leaves a raster of the application's size whose samples are all 255 (and an
  empty canvas and no last position). \<^verbatim>\<open>clear\<close> returns nothing: its only result is the
  new state.
\<close>

theorem clear_resets:
  "image_buf (clear (run line s acts)) = replicate (size_px s) (replicate (size_px s) 255) \<and>
   rect (size_px s) (size_px s) (image_buf (clear (run line s acts))) \<and>
   list_all (list_all (\<lambda>v. v = 255)) (image_buf (clear (run line s acts))) \<and>
   canvas (clear (run line s acts)) = [] \<and> last_pos (clear (run line s acts)) = None"
  by (simp add: clear_def create_drawing_buffer_def Image_new_def size_px_run rect_def
      list_all_length)

text \<open>
  C10: on a raster with at least one sample, a line from \<open>(0, 0)\<close> to \<open>(0, 0)\<close> with stroke
  width 1 and ink 0 sets exactly the sample at \<open>(0, 0)\<close> to black: the result is the raster
  with that one sample replaced by 0, so every other sample and the shape are unchanged.
  The stroke width is an argument of the line operation, and for this segment every width
  gives the same raster. In particular the pointer handler \<^verbatim>\<open>_draw\<close>, which passes width 4,
  produces this raster when the button was pressed at \<open>(0, 0)\<close> and the pointer is still
  there.
\<close>

theorem zero_length_line_one_pixel:
  assumes "rect H W im" "0 < H" "0 < W"
  shows "ImageDraw_line thin wide [(0, 0), (0, 0)] 0 1 im = im[0 := (im ! 0)[0 := 0]] \<and>
         ImageDraw_line thin wide [(0, 0), (0, 0)] 0 1 im ! 0 ! 0 = 0 \<and>
         (\<forall>r<H. \<forall>c<W. (r, c) \<noteq> (0, 0) \<longrightarrow>
            ImageDraw_line thin wide [(0, 0), (0, 0)] 0 1 im ! r ! c = im ! r ! c) \<and>
         rect H W (ImageDraw_line thin wide [(0, 0), (0, 0)] 0 1 im) \<and>
         ImageDraw_line thin wide [(0, 0), (0, 0)] 0 w im
           = ImageDraw_line thin wide [(0, 0), (0, 0)] 0 1 im \<and>
         image_buf (draw (ImageDraw_line thin wide)
             (s\<lparr>image_buf := im, last_pos := Some (0, 0)\<rparr>) (Event 0 0))
           = ImageDraw_line thin wide [(0, 0), (0, 0)] 0 1 im"
proof -
  let ?L = "ImageDraw_line thin wide [(0, 0), (0, 0)] 0"
  have L: "?L k im = draw_point (0, 0) 0 im" for k
    by (rule ImageDraw_line_origin)
  have 1: "?L 1 im = im[0 := (im ! 0)[0 := 0]]"
    unfolding L using assms by (rule draw_point_origin)
  have 2: "?L 1 im ! 0 ! 0 = 0"
    unfolding L using draw_point_origin_nth[OF assms(1) assms(2) assms(3), of 0] by simp
  have 3: "\<forall>r<H. \<forall>c<W. (r, c) \<noteq> (0, 0) \<longrightarrow> ?L 1 im ! r ! c = im ! r ! c"
    unfolding L using draw_point_origin_nth[OF assms(1), of _ _ 0] by auto
  have 4: "rect H W (?L 1 im)"
    unfolding L using assms(1) by (rule rect_draw_point_origin)
  have 5: "?L w im = ?L 1 im" by (simp only: L)
  have 6: "image_buf (draw (ImageDraw_line thin wide)
             (s\<lparr>image_buf := im, last_pos := Some (0, 0)\<rparr>) (Event 0 0)) = ?L 4 im"
    by (simp add: draw_def Let_def)
  have 7: "?L 4 im = ?L 1 im" by (simp only: L)
  show ?thesis using 1 2 3 4 5 6 7 by (simp only: simp_thms)
qed

theorem zero_length_line_one_pixel_witness:
  "\<forall>thin wide.
     ImageDraw_line thin wide [(0, 0), (0, 0)] 0 1 [[255, 255], [255, 255]]
       = [[0, 255], [255, 255]] \<and>
     ImageDraw_line thin wide [(0, 0), (0, 0)] 0 4 [[255, 255], [255, 255]]
       = [[0, 255], [255, 255]] \<and>
     image_buf (run (ImageDraw_line thin wide) (init 2) [ButtonPress (Event 0 0), Motion (Event 0 0)])
       = [[0, 255], [255, 255]]"
proof (intro allI)
  fix thin wide
  let ?im = "[[255, 255], [255, 255 :: 8 word]]"
  let ?L = "ImageDraw_line thin wide"
  have r: "rect 2 2 ?im" by (simp add: rect_def)
  note t = zero_length_line_one_pixel[OF r, of thin wide 4
      "\<lparr>size_px = 2, canvas = [], image_buf = ?im, last_pos = Some (0, 0)\<rparr>"]
  have one: "?L [(0, 0), (0, 0)] 0 1 ?im = [[0, 255], [255, 255]]"
    using t by simp
  have four: "?L [(0, 0), (0, 0)] 0 4 ?im = [[0, 255], [255, 255]]"
    using t one by simp
  have i: "init 2 = \<lparr>size_px = 2, canvas = [], image_buf = ?im, last_pos = None\<rparr>"
    by (simp add: init_def create_drawing_buffer_def Image_new_def numeral_2_eq_2)
  have g: "run ?L (init 2) [ButtonPress (Event 0 0), Motion (Event 0 0)]
      = draw ?L \<lparr>size_px = 2, canvas = [], image_buf = ?im, last_pos = Some (0, 0)\<rparr> (Event 0 0)"
    by (simp add: i run_def start_draw_def)
  have app: "image_buf (run ?L (init 2) [ButtonPress (Event 0 0), Motion (Event 0 0)])
      = [[0, 255], [255, 255]]"
    unfolding g using t one by simp
  show "?L [(0, 0), (0, 0)] 0 1 ?im = [[0, 255], [255, 255]] \<and>
     ?L [(0, 0), (0, 0)] 0 4 ?im = [[0, 255], [255, 255]] \<and>
     image_buf (run ?L (init 2) [ButtonPress (Event 0 0), Motion (Event 0 0)])
       = [[0, 255], [255, 255]]"
    using one four app by (simp only: simp_thms)
qed

end
